theory Spec2Isabelle
  imports Main "HOL-Library.Sublist" "HOL-Library.AList"
begin

section \<open>Python values\<close>

text \<open>
  The dashboard works on whatever \<^verbatim>\<open>json.load\<close> returns: \<^verbatim>\<open>None\<close>, booleans, integers,
  floats, strings, lists and dictionaries with string keys. A dictionary keeps its
  insertion order, so it is an association list; \<^verbatim>\<open>json.load\<close> never produces a
  repeated key. A float is carried as mantissa and binary exponent (or as one of the
  three special values the \<^verbatim>\<open>json\<close> module accepts); the program only ever tests a float
  for being zero.
\<close>

datatype pyfloat = Finite int int | Infinity bool | NaN

datatype pyval =
    PNone
  | PBool bool
  | PInt int
  | PFloat pyfloat
  | PStr string
  | PList "pyval list"
  | PDict "(string \<times> pyval) list"

type_synonym pydict = "(string \<times> pyval) list"

text \<open>The exceptions the modelled code can raise.\<close>

datatype error =
    AttributeError
  | TypeError
  | KeyError
  | IndexError
  | ValueError
  | JSONDecodeError

text \<open>Truth value testing, as \<^verbatim>\<open>if x\<close> and \<^verbatim>\<open>not x\<close> do it.\<close>

fun truthy :: "pyval \<Rightarrow> bool" where
  "truthy PNone = False"
| "truthy (PBool b) = b"
| "truthy (PInt i) = (i \<noteq> 0)"
| "truthy (PFloat (Finite m e)) = (m \<noteq> 0)"
| "truthy (PFloat (Infinity s)) = True"
| "truthy (PFloat NaN) = True"
| "truthy (PStr s) = (s \<noteq> [])"
| "truthy (PList xs) = (xs \<noteq> [])"
| "truthy (PDict kvs) = (kvs \<noteq> [])"

text \<open>\<^verbatim>\<open>obj.get(key)\<close> and \<^verbatim>\<open>obj.get(key, default)\<close>: only a dictionary has the method.\<close>

definition dict_get :: "pydict \<Rightarrow> string \<Rightarrow> pyval \<Rightarrow> pyval" where
  "dict_get kvs k d = (case map_of kvs k of None \<Rightarrow> d | Some v \<Rightarrow> v)"

fun py_get :: "pyval \<Rightarrow> string \<Rightarrow> pyval \<Rightarrow> error + pyval" where
  "py_get (PDict kvs) k d = Inr (dict_get kvs k d)"
| "py_get _ k d = Inl AttributeError"

text \<open>
  Iteration (\<^verbatim>\<open>for x in obj\<close>): a list gives its elements, a string its characters as
  one-character strings, a dictionary its keys; anything else is not iterable.
\<close>

fun py_iter :: "pyval \<Rightarrow> error + pyval list" where
  "py_iter (PList xs) = Inr xs"
| "py_iter (PStr s) = Inr (map (\<lambda>c. PStr [c]) s)"
| "py_iter (PDict kvs) = Inr (map (\<lambda>kv. PStr (fst kv)) kvs)"
| "py_iter _ = Inl TypeError"

section \<open>Strings\<close>

text \<open>
  \<^verbatim>\<open>str.lower\<close> and \<^verbatim>\<open>str.capitalize\<close> on the ASCII letters; every other character is
  left as it is.
\<close>

definition upper_letters :: string where
  "upper_letters = ''ABCDEFGHIJKLMNOPQRSTUVWXYZ''"

definition lower_letters :: string where
  "lower_letters = ''abcdefghijklmnopqrstuvwxyz''"

definition lower_char :: "char \<Rightarrow> char" where
  "lower_char c = (case map_of (zip upper_letters lower_letters) c of None \<Rightarrow> c | Some d \<Rightarrow> d)"

definition upper_char :: "char \<Rightarrow> char" where
  "upper_char c = (case map_of (zip lower_letters upper_letters) c of None \<Rightarrow> c | Some d \<Rightarrow> d)"

definition lower :: "string \<Rightarrow> string" where
  "lower s = map lower_char s"

definition capitalize :: "string \<Rightarrow> string" where
  "capitalize s = (case s of [] \<Rightarrow> [] | c # cs \<Rightarrow> upper_char c # map lower_char cs)"

text \<open>\<^verbatim>\<open>needle in haystack\<close> on strings: a scan for the first position where the needle starts.\<close>

fun str_contains :: "string \<Rightarrow> string \<Rightarrow> bool" where
  "str_contains needle [] = (needle = [])"
| "str_contains needle (c # cs) = (prefix needle (c # cs) \<or> str_contains needle cs)"

section \<open>Chart-type detector\<close>

text \<open>
  \<^verbatim>\<open>traces[0]\<close>: indexing a list, a string or a dictionary by the integer 0; the other
  values are not subscriptable. The caller has already excluded the empty containers.
\<close>

fun py_index0 :: "pyval \<Rightarrow> error + pyval" where
  "py_index0 (PList xs) = (case xs of [] \<Rightarrow> Inl IndexError | x # _ \<Rightarrow> Inr x)"
| "py_index0 (PStr s) = (case s of [] \<Rightarrow> Inl IndexError | c # _ \<Rightarrow> Inr (PStr [c]))"
| "py_index0 (PDict kvs) = Inl KeyError"
| "py_index0 _ = Inl TypeError"

fun py_capitalize :: "pyval \<Rightarrow> error + string" where
  "py_capitalize (PStr s) = Inr (capitalize s)"
| "py_capitalize _ = Inl AttributeError"

definition detect_chart_type :: "pyval \<Rightarrow> error + string" where
  "detect_chart_type plot_spec =
     (case py_get plot_spec ''data'' (PList []) of
        Inl e \<Rightarrow> Inl e
      | Inr traces \<Rightarrow>
          if \<not> truthy traces then Inr ''Unknown''
          else (case py_index0 traces of
                  Inl e \<Rightarrow> Inl e
                | Inr first \<Rightarrow>
                    (case py_get first ''type'' (PStr ''Unknown'') of
                       Inl e \<Rightarrow> Inl e
                     | Inr t \<Rightarrow> py_capitalize t)))"

section \<open>Selection and filter layer\<close>

text \<open>
  The part of \<^verbatim>\<open>render_sidebar\<close> that computes \<^verbatim>\<open>queries\<close> and \<^verbatim>\<open>filtered_indices\<close>.
  The comprehension over \<^verbatim>\<open>queries\<close> calls \<^verbatim>\<open>q.lower()\<close> on each element in turn and
  stops at the first one that is not a string.
\<close>

fun queries_of :: "pyval list \<Rightarrow> error + pyval list" where
  "queries_of [] = Inr []"
| "queries_of (r # rs) =
     (case py_get r ''query'' (PStr ''Unnamed Query'') of
        Inl e \<Rightarrow> Inl e
      | Inr q \<Rightarrow> (case queries_of rs of Inl e \<Rightarrow> Inl e | Inr qs \<Rightarrow> Inr (q # qs)))"

fun py_lower :: "pyval \<Rightarrow> error + string" where
  "py_lower (PStr s) = Inr (lower s)"
| "py_lower _ = Inl AttributeError"

fun search_from :: "nat \<Rightarrow> string \<Rightarrow> pyval list \<Rightarrow> error + nat list" where
  "search_from i search_term [] = Inr []"
| "search_from i search_term (q # qs) =
     (case py_lower q of
        Inl e \<Rightarrow> Inl e
      | Inr ql \<Rightarrow>
          (case search_from (Suc i) search_term qs of
             Inl e \<Rightarrow> Inl e
           | Inr is \<Rightarrow> Inr (if str_contains (lower search_term) ql then i # is else is)))"

definition filtered_indices :: "pyval list \<Rightarrow> string \<Rightarrow> error + nat list" where
  "filtered_indices results search_term =
     (case queries_of results of
        Inl e \<Rightarrow> Inl e
      | Inr queries \<Rightarrow>
          if search_term \<noteq> [] then search_from 0 search_term queries
          else Inr [0 ..< length queries])"

section \<open>Date and time values\<close>

text \<open>
  A \<^verbatim>\<open>datetime\<close> object: the calendar fields, and \<^verbatim>\<open>tzinfo\<close> as the UTC offset in
  microseconds (\<open>None\<close> for a naive value). \<^verbatim>\<open>datetime.min\<close> is midnight of 1 January
  of year 1, naive.
\<close>

record datetime =
  year :: int
  month :: int
  day :: int
  hour :: int
  minute :: int
  second :: int
  microsecond :: int
  tzinfo :: "int option"

definition datetime_min :: datetime where
  "datetime_min = \<lparr>year = 1, month = 1, day = 1, hour = 0, minute = 0, second = 0,
                    microsecond = 0, tzinfo = None\<rparr>"

definition timezone_utc :: int where
  "timezone_utc = 0"

definition replace_tzinfo :: "datetime \<Rightarrow> int \<Rightarrow> datetime" where
  "replace_tzinfo dt tz = dt\<lparr>tzinfo := Some tz\<rparr>"

text \<open>The proleptic Gregorian ordinal of a date, 1 for 1 January of year 1.\<close>

definition is_leap :: "int \<Rightarrow> bool" where
  "is_leap y = (y mod 4 = 0 \<and> (y mod 100 \<noteq> 0 \<or> y mod 400 = 0))"

definition days_before_year :: "int \<Rightarrow> int" where
  "days_before_year y = (y - 1) * 365 + (y - 1) div 4 - (y - 1) div 100 + (y - 1) div 400"

definition days_in_month :: "int \<Rightarrow> int \<Rightarrow> int" where
  "days_in_month y m =
     (if m = 2 \<and> is_leap y then 29
      else [0, 31, 28, 31, 30, 31, 30, 31, 31, 30, 31, 30, 31] ! nat m)"

definition days_before_month :: "int \<Rightarrow> int \<Rightarrow> int" where
  "days_before_month y m =
     [0, 0, 31, 59, 90, 120, 151, 181, 212, 243, 273, 304, 334] ! nat m
       + (if m > 2 \<and> is_leap y then 1 else 0)"

definition ymd2ord :: "int \<Rightarrow> int \<Rightarrow> int \<Rightarrow> int" where
  "ymd2ord y m d = days_before_year y + days_before_month y m + d"

text \<open>
  Two aware values compare by the instant they denote: the wall-clock fields counted in
  microseconds, less the UTC offset. \<^verbatim>\<open>sorted\<close> only ever compares aware values here,
  because every key \<^verbatim>\<open>parse_timestamp\<close> returns carries a \<^verbatim>\<open>tzinfo\<close>.
\<close>

definition wall_micros :: "datetime \<Rightarrow> int" where
  "wall_micros dt =
     (((ymd2ord (year dt) (month dt) (day dt) * 24 + hour dt) * 60
         + minute dt) * 60 + second dt) * 1000000 + microsecond dt"

definition utc_micros :: "datetime \<Rightarrow> int" where
  "utc_micros dt = wall_micros dt - (case tzinfo dt of None \<Rightarrow> 0 | Some off \<Rightarrow> off)"

subsection \<open>A parser for the common ISO forms\<close>

text \<open>
  \<^verbatim>\<open>datetime.fromisoformat\<close> belongs to the interpreter, and the set of strings it accepts
  has grown between releases. The loader is therefore modelled over an arbitrary parser
  \<open>fi\<close> (\<open>None\<close> when it raises \<^verbatim>\<open>ValueError\<close>). For concrete runs the parser below reads
  the three forms every release since 3.7 accepts with the same result,
  \<^verbatim>\<open>YYYY-MM-DD\<close>, \<^verbatim>\<open>YYYY-MM-DD?HH:MM:SS\<close> and \<^verbatim>\<open>YYYY-MM-DD?HH:MM:SS+HH:MM\<close> (any
  single separator character, either sign), and rejects everything else.
\<close>

definition digit_val :: "char \<Rightarrow> int option" where
  "digit_val c = map_of (zip ''0123456789'' [0, 1, 2, 3, 4, 5, 6, 7, 8, 9]) c"

fun parse_digits_acc :: "int \<Rightarrow> string \<Rightarrow> int option" where
  "parse_digits_acc acc [] = Some acc"
| "parse_digits_acc acc (c # cs) =
     (case digit_val c of None \<Rightarrow> None | Some d \<Rightarrow> parse_digits_acc (acc * 10 + d) cs)"

definition parse_digits :: "string \<Rightarrow> int option" where
  "parse_digits s = (if s = [] then None else parse_digits_acc 0 s)"

definition parse_isoformat_date :: "string \<Rightarrow> (int \<times> int \<times> int) option" where
  "parse_isoformat_date s =
     (if length s \<noteq> 10 \<or> s ! 4 \<noteq> CHR ''-'' \<or> s ! 7 \<noteq> CHR ''-'' then None
      else (case (parse_digits (take 4 s), parse_digits (take 2 (drop 5 s)),
                  parse_digits (drop 8 s)) of
              (Some y, Some m, Some d) \<Rightarrow>
                if 1 \<le> y \<and> y \<le> 9999 \<and> 1 \<le> m \<and> m \<le> 12 \<and> 1 \<le> d \<and> d \<le> days_in_month y m
                then Some (y, m, d) else None
            | _ \<Rightarrow> None))"

definition parse_hh_mm_ss :: "string \<Rightarrow> (int \<times> int \<times> int) option" where
  "parse_hh_mm_ss s =
     (if length s \<noteq> 8 \<or> s ! 2 \<noteq> CHR '':'' \<or> s ! 5 \<noteq> CHR '':'' then None
      else (case (parse_digits (take 2 s), parse_digits (take 2 (drop 3 s)),
                  parse_digits (drop 6 s)) of
              (Some h, Some m, Some sec) \<Rightarrow>
                if h < 24 \<and> m < 60 \<and> sec < 60 then Some (h, m, sec) else None
            | _ \<Rightarrow> None))"

definition parse_tz :: "string \<Rightarrow> int option" where
  "parse_tz s =
     (if length s \<noteq> 6 \<or> (s ! 0 \<noteq> CHR ''+'' \<and> s ! 0 \<noteq> CHR ''-'') \<or> s ! 3 \<noteq> CHR '':'' then None
      else (case (parse_digits (take 2 (drop 1 s)), parse_digits (drop 4 s)) of
              (Some h, Some m) \<Rightarrow>
                if h * 3600 + m * 60 < 86400
                then Some ((if s ! 0 = CHR ''-'' then - 1 else 1)
                             * (h * 3600 + m * 60) * 1000000)
                else None
            | _ \<Rightarrow> None))"

definition fromisoformat :: "string \<Rightarrow> datetime option" where
  "fromisoformat s =
     (case parse_isoformat_date (take 10 s) of
        None \<Rightarrow> None
      | Some (y, m, d) \<Rightarrow>
          if length s = 10 then
            Some \<lparr>year = y, month = m, day = d, hour = 0, minute = 0, second = 0,
                  microsecond = 0, tzinfo = None\<rparr>
          else (case parse_hh_mm_ss (take 8 (drop 11 s)) of
                  None \<Rightarrow> None
                | Some (h, mi, sec) \<Rightarrow>
                    if length s = 19 then
                      Some \<lparr>year = y, month = m, day = d, hour = h, minute = mi, second = sec,
                            microsecond = 0, tzinfo = None\<rparr>
                    else (case parse_tz (drop 19 s) of
                            None \<Rightarrow> None
                          | Some off \<Rightarrow>
                              Some \<lparr>year = y, month = m, day = d, hour = h, minute = mi,
                                    second = sec, microsecond = 0, tzinfo = Some off\<rparr>)))"

section \<open>Data layer\<close>

text \<open>
  \<^verbatim>\<open>parse_timestamp\<close>. The \<^verbatim>\<open>try\<close> block catches every \<^verbatim>\<open>Exception\<close>: the \<^verbatim>\<open>ValueError\<close>
  of a string that does not parse, and the \<^verbatim>\<open>TypeError\<close> of an argument that is not a
  string.
\<close>

definition parse_timestamp :: "(string \<Rightarrow> datetime option) \<Rightarrow> pyval \<Rightarrow> error + datetime" where
  "parse_timestamp fi entry =
     (case py_get entry ''timestamp'' PNone of
        Inl e \<Rightarrow> Inl e
      | Inr ts \<Rightarrow>
          if \<not> truthy ts then Inr (replace_tzinfo datetime_min timezone_utc)
          else (case ts of
                  PStr s \<Rightarrow>
                    (case fi s of
                       None \<Rightarrow> Inr (replace_tzinfo datetime_min timezone_utc)
                     | Some dt \<Rightarrow>
                         Inr (if tzinfo dt = None then replace_tzinfo dt timezone_utc else dt))
                | _ \<Rightarrow> Inr (replace_tzinfo datetime_min timezone_utc)))"

text \<open>\<^verbatim>\<open>"plot" in r\<close>: key membership, element membership or substring, by the type of \<^verbatim>\<open>r\<close>.\<close>

fun py_in :: "string \<Rightarrow> pyval \<Rightarrow> error + bool" where
  "py_in k (PDict kvs) = Inr (k \<in> set (map fst kvs))"
| "py_in k (PList xs) = Inr (PStr k \<in> set xs)"
| "py_in k (PStr s) = Inr (str_contains k s)"
| "py_in k _ = Inl TypeError"

fun with_plot :: "pyval list \<Rightarrow> error + pyval list" where
  "with_plot [] = Inr []"
| "with_plot (r # rs) =
     (case py_in ''plot'' r of
        Inl e \<Rightarrow> Inl e
      | Inr b \<Rightarrow>
          (case with_plot rs of
             Inl e \<Rightarrow> Inl e
           | Inr rs' \<Rightarrow> Inr (if b then r # rs' else rs')))"

text \<open>
  \<^verbatim>\<open>sorted(xs, key=f, reverse=True)\<close>: the keys are computed first, one call per element;
  then the list is reversed, sorted by a stable ascending sort, and reversed again.
\<close>

fun decorate :: "('a \<Rightarrow> error + 'k) \<Rightarrow> 'a list \<Rightarrow> error + ('k \<times> 'a) list" where
  "decorate key [] = Inr []"
| "decorate key (x # xs) =
     (case key x of
        Inl e \<Rightarrow> Inl e
      | Inr k \<Rightarrow> (case decorate key xs of Inl e \<Rightarrow> Inl e | Inr kxs \<Rightarrow> Inr ((k, x) # kxs)))"

definition sorted_reverse :: "('a \<Rightarrow> error + datetime) \<Rightarrow> 'a list \<Rightarrow> error + 'a list" where
  "sorted_reverse key xs =
     (case decorate key xs of
        Inl e \<Rightarrow> Inl e
      | Inr kxs \<Rightarrow> Inr (map snd (rev (sort_key (\<lambda>kx. utc_micros (fst kx)) (rev kxs)))))"

text \<open>
  \<^verbatim>\<open>load_results\<close> without its cache. The file system \<open>fs\<close> gives the content of each
  existing path; \<open>jl\<close> is \<^verbatim>\<open>json.load\<close> on that content.
\<close>

definition is_dict :: "pyval \<Rightarrow> bool" where
  "is_dict v = (case v of PDict _ \<Rightarrow> True | _ \<Rightarrow> False)"

definition load_results ::
  "('c \<Rightarrow> error + pyval) \<Rightarrow> (string \<Rightarrow> datetime option) \<Rightarrow> ('p \<Rightarrow> 'c option) \<Rightarrow> 'p
     \<Rightarrow> error + pyval list" where
  "load_results jl fi fs path =
     (case fs path of
        None \<Rightarrow> Inr []
      | Some content \<Rightarrow>
          (case jl content of
             Inl e \<Rightarrow> Inl e
           | Inr raw_data \<Rightarrow>
               (case py_iter (if is_dict raw_data then PList [raw_data] else raw_data) of
                  Inl e \<Rightarrow> Inl e
                | Inr items \<Rightarrow>
                    (case with_plot items of
                       Inl e \<Rightarrow> Inl e
                     | Inr results \<Rightarrow> sorted_reverse (parse_timestamp fi) results))))"

text \<open>
  The \<^verbatim>\<open>st.cache_data\<close> decorator memoises a function on its arguments: the first call
  with a given \<^verbatim>\<open>path\<close> runs the body and stores what it returns, and a later call with
  the same \<^verbatim>\<open>path\<close> returns the stored value without running the body. A call that raises
  stores nothing.
\<close>

definition cached_load_results ::
  "('c \<Rightarrow> error + pyval) \<Rightarrow> (string \<Rightarrow> datetime option) \<Rightarrow> ('p \<Rightarrow> pyval list option)
     \<Rightarrow> ('p \<Rightarrow> 'c option) \<Rightarrow> 'p \<Rightarrow> (error + pyval list) \<times> ('p \<Rightarrow> pyval list option)" where
  "cached_load_results jl fi cache fs path =
     (case cache path of
        Some stored \<Rightarrow> (Inr stored, cache)
      | None \<Rightarrow>
          (case load_results jl fi fs path of
             Inl e \<Rightarrow> (Inl e, cache)
           | Inr results \<Rightarrow> (Inr results, cache(path \<mapsto> results))))"

text \<open>\<^verbatim>\<open>render_download\<close> offers \<^verbatim>\<open>json.dumps(results, indent=2)\<close>; \<open>jd\<close> is that serialiser.\<close>

definition render_download :: "(pyval \<Rightarrow> 'c) \<Rightarrow> pyval list \<Rightarrow> 'c" where
  "render_download jd results = jd (PList results)"

section \<open>Plot rendering layer\<close>

text \<open>
  A figure is the list of traces added so far and its layout. Each \<^verbatim>\<open>add_bar\<close>,
  \<^verbatim>\<open>add_scatter\<close> or \<^verbatim>\<open>add_pie\<close> call appends one trace, recorded with the keyword
  arguments it was given. The charting library validates those arguments and raises
  \<^verbatim>\<open>ValueError\<close> for a trace it does not accept; which traces it accepts is outside the
  repository, so that judgement is the parameter \<open>accepts\<close>.
\<close>

datatype rendered_trace = Bar pydict | Scatter pydict | Pie pydict

record figure =
  fig_data :: "rendered_trace list"
  fig_layout :: pydict

definition new_figure :: figure where
  "new_figure = \<lparr>fig_data = [], fig_layout = []\<rparr>"

definition add_trace :: "(rendered_trace \<Rightarrow> bool) \<Rightarrow> figure \<Rightarrow> rendered_trace \<Rightarrow> error + figure" where
  "add_trace accepts fig t =
     (if accepts t then Inr (fig\<lparr>fig_data := fig_data fig @ [t]\<rparr>) else Inl ValueError)"

type_synonym builder = "(rendered_trace \<Rightarrow> bool) \<Rightarrow> figure \<Rightarrow> pydict \<Rightarrow> error + figure"

definition build_bar :: builder where
  "build_bar accepts fig trace =
     add_trace accepts fig (Bar
       [(''x'', dict_get trace ''x'' PNone),
        (''y'', dict_get trace ''y'' PNone),
        (''name'', dict_get trace ''name'' PNone),
        (''marker'', dict_get trace ''marker'' (PDict [])),
        (''text'', dict_get trace ''text'' PNone),
        (''textposition'', dict_get trace ''textposition'' (PStr ''auto''))])"

definition build_line :: builder where
  "build_line accepts fig trace =
     add_trace accepts fig (Scatter
       [(''x'', dict_get trace ''x'' PNone),
        (''y'', dict_get trace ''y'' PNone),
        (''mode'', PStr ''lines+markers''),
        (''name'', dict_get trace ''name'' PNone)])"

definition build_pie :: builder where
  "build_pie accepts fig trace =
     add_trace accepts fig (Pie
       [(''labels'', dict_get trace ''labels'' PNone),
        (''values'', dict_get trace ''values'' PNone),
        (''name'', dict_get trace ''name'' PNone),
        (''textinfo'', PStr ''percent+label'')])"

definition TRACE_BUILDERS :: "(string \<times> builder) list" where
  "TRACE_BUILDERS =
     [(''bar'', build_bar),
      (''line'', build_line),
      (''scatter'', build_line),
      (''pie'', build_pie)]"

text \<open>
  \<^verbatim>\<open>TRACE_BUILDERS.get(trace_type)\<close>: the key is hashed first, so a list or a dictionary
  raises \<^verbatim>\<open>TypeError\<close>; of the hashable values only a string can equal one of the keys.
\<close>

fun builders_get :: "pyval \<Rightarrow> error + builder option" where
  "builders_get (PStr s) = Inr (map_of TRACE_BUILDERS s)"
| "builders_get (PList xs) = Inl TypeError"
| "builders_get (PDict kvs) = Inl TypeError"
| "builders_get _ = Inr None"

text \<open>The \<^verbatim>\<open>for trace in ...\<close> loop of \<^verbatim>\<open>plotly_from_metadata\<close>.\<close>

fun add_traces :: "(rendered_trace \<Rightarrow> bool) \<Rightarrow> figure \<Rightarrow> pyval list \<Rightarrow> error + figure" where
  "add_traces accepts fig [] = Inr fig"
| "add_traces accepts fig (trace # rest) =
     (case trace of
        PDict kvs \<Rightarrow>
          (case builders_get (dict_get kvs ''type'' PNone) of
             Inl e \<Rightarrow> Inl e
           | Inr None \<Rightarrow> add_traces accepts fig rest
           | Inr (Some builder) \<Rightarrow>
               (case builder accepts fig kvs of
                  Inl e \<Rightarrow> Inl e
                | Inr fig' \<Rightarrow> add_traces accepts fig' rest))
      | _ \<Rightarrow> Inl AttributeError)"

text \<open>
  \<^verbatim>\<open>Figure.update_layout\<close> updates the layout recursively: where the update gives a
  dictionary for a property that already holds one, the two are merged key by key, and
  the properties the update does not name are kept; any other value is assigned,
  replacing what was there. Property names are taken as they are written. The library
  raises \<^verbatim>\<open>ValueError\<close> for a property it does not know or a value it does not accept;
  that judgement is the parameter \<open>accepts_layout\<close>.
\<close>

function perform_update :: "pydict \<Rightarrow> pydict \<Rightarrow> pydict" where
  "perform_update obj [] = obj"
| "perform_update obj ((k, v) # upd) =
     perform_update
       (case v of
          PDict new \<Rightarrow>
            (case map_of obj k of
               Some (PDict old) \<Rightarrow> AList.update k (PDict (perform_update old new)) obj
             | _ \<Rightarrow> AList.update k v obj)
        | _ \<Rightarrow> AList.update k v obj)
       upd"
  by pat_completeness auto
termination
  by (relation "measure (\<lambda>(obj, upd). size_list (size_prod (\<lambda>_. 0) size) upd)") auto

definition update_layout :: "(pydict \<Rightarrow> bool) \<Rightarrow> figure \<Rightarrow> pydict \<Rightarrow> error + figure" where
  "update_layout accepts_layout fig kwargs =
     (if accepts_layout kwargs
      then Inr (fig\<lparr>fig_layout := perform_update (fig_layout fig) kwargs\<rparr>)
      else Inl ValueError)"

definition DEFAULT_LAYOUT :: pydict where
  "DEFAULT_LAYOUT =
     [(''template'', PStr ''plotly_dark''),
      (''margin'', PDict [(''l'', PInt 40), (''r'', PInt 40), (''t'', PInt 60), (''b'', PInt 40)]),
      (''title_x'', PFloat (Finite 1 (- 1)))]"

text \<open>
  \<^verbatim>\<open>plotly_from_metadata\<close>. Unpacking \<^verbatim>\<open>**plot_spec.get("layout", {})\<close> raises \<^verbatim>\<open>TypeError\<close>
  when the layout is not a mapping.
\<close>

definition plotly_from_metadata ::
  "(rendered_trace \<Rightarrow> bool) \<Rightarrow> (pydict \<Rightarrow> bool) \<Rightarrow> pyval \<Rightarrow> error + figure" where
  "plotly_from_metadata accepts accepts_layout plot_spec =
     (case py_get plot_spec ''data'' (PList []) of
        Inl e \<Rightarrow> Inl e
      | Inr data \<Rightarrow>
          (case py_iter data of
             Inl e \<Rightarrow> Inl e
           | Inr traces \<Rightarrow>
               (case add_traces accepts new_figure traces of
                  Inl e \<Rightarrow> Inl e
                | Inr fig \<Rightarrow>
                    (case update_layout accepts_layout fig DEFAULT_LAYOUT of
                       Inl e \<Rightarrow> Inl e
                     | Inr fig' \<Rightarrow>
                         (case py_get plot_spec ''layout'' (PDict []) of
                            Inl e \<Rightarrow> Inl e
                          | Inr layout \<Rightarrow>
                              (case layout of
                                 PDict kwargs \<Rightarrow> update_layout accepts_layout fig' kwargs
                               | _ \<Rightarrow> Inl TypeError))))))"

section \<open>Notions used in the statements\<close>

text \<open>
  The query text of a result entry as the data model describes it: the \<^verbatim>\<open>query\<close> field,
  or \<^verbatim>\<open>Unnamed Query\<close> for an entry without one.
\<close>

definition entry_query :: "pyval \<Rightarrow> string" where
  "entry_query r =
     (case r of
        PDict kvs \<Rightarrow> (case map_of kvs ''query'' of Some (PStr s) \<Rightarrow> s | _ \<Rightarrow> ''Unnamed Query'')
      | _ \<Rightarrow> ''Unnamed Query'')"

text \<open>A result entry whose \<^verbatim>\<open>query\<close> field, if it has one, is a string.\<close>

definition query_is_text :: "pyval \<Rightarrow> bool" where
  "query_is_text r =
     (case r of
        PDict kvs \<Rightarrow> (case map_of kvs ''query'' of None \<Rightarrow> True | Some (PStr s) \<Rightarrow> True | _ \<Rightarrow> False)
      | _ \<Rightarrow> False)"

definition str_of :: "pyval \<Rightarrow> string" where
  "str_of v = (case v of PStr s \<Rightarrow> s | _ \<Rightarrow> [])"

definition is_str :: "pyval \<Rightarrow> bool" where
  "is_str v = (case v of PStr _ \<Rightarrow> True | _ \<Rightarrow> False)"

text \<open>An object with a \<^verbatim>\<open>plot\<close> key.\<close>

definition has_plot :: "pyval \<Rightarrow> bool" where
  "has_plot r = (case r of PDict kvs \<Rightarrow> ''plot'' \<in> set (map fst kvs) | _ \<Rightarrow> False)"

text \<open>
  The elements of the JSON input in file order, as \<^verbatim>\<open>load_results\<close> iterates them: none
  for a missing file, the object itself for a single top-level object, the elements of
  the top-level value otherwise.
\<close>

definition json_items :: "('c \<Rightarrow> error + pyval) \<Rightarrow> ('p \<Rightarrow> 'c option) \<Rightarrow> 'p \<Rightarrow> pyval list" where
  "json_items jl fs path =
     (case fs path of
        None \<Rightarrow> []
      | Some content \<Rightarrow>
          (case jl content of
             Inl e \<Rightarrow> []
           | Inr raw_data \<Rightarrow>
               if is_dict raw_data then [raw_data]
               else (case py_iter raw_data of Inl e \<Rightarrow> [] | Inr items \<Rightarrow> items)))"

text \<open>The fallback key, \<^verbatim>\<open>datetime.min.replace(tzinfo=timezone.utc)\<close>.\<close>

definition min_utc :: datetime where
  "min_utc = replace_tzinfo datetime_min timezone_utc"

text \<open>The instant an entry is sorted by.\<close>

definition timestamp_key :: "(string \<Rightarrow> datetime option) \<Rightarrow> pyval \<Rightarrow> int" where
  "timestamp_key fi entry =
     (case parse_timestamp fi entry of Inr dt \<Rightarrow> utc_micros dt | Inl e \<Rightarrow> utc_micros min_utc)"

text \<open>An entry whose \<^verbatim>\<open>timestamp\<close> is a non-empty string that the parser accepts.\<close>

definition valid_timestamp :: "(string \<Rightarrow> datetime option) \<Rightarrow> pyval \<Rightarrow> bool" where
  "valid_timestamp fi entry =
     (case entry of
        PDict kvs \<Rightarrow>
          (case map_of kvs ''timestamp'' of Some (PStr s) \<Rightarrow> s \<noteq> [] \<and> fi s \<noteq> None | _ \<Rightarrow> False)
      | _ \<Rightarrow> False)"

text \<open>
  A trace as the data model describes it: a mapping whose \<^verbatim>\<open>type\<close>, if it has one, is a
  value a dictionary can be indexed with (a string, a number, a boolean or \<^verbatim>\<open>None\<close>).
\<close>

definition hashable :: "pyval \<Rightarrow> bool" where
  "hashable v = (case v of PList _ \<Rightarrow> False | PDict _ \<Rightarrow> False | _ \<Rightarrow> True)"

definition trace_type :: "pyval \<Rightarrow> pyval" where
  "trace_type t = (case t of PDict kvs \<Rightarrow> dict_get kvs ''type'' PNone | _ \<Rightarrow> PNone)"

definition trace_items :: "pyval \<Rightarrow> pydict" where
  "trace_items t = (case t of PDict kvs \<Rightarrow> kvs | _ \<Rightarrow> [])"

definition well_formed_trace :: "pyval \<Rightarrow> bool" where
  "well_formed_trace t = (is_dict t \<and> hashable (trace_type t))"

text \<open>
  The dispatch the specification describes, written out case by case: bar to the bar
  builder, line and scatter to the line builder, pie to the pie builder, nothing for any
  other type. \<open>expected_traces\<close> is what one trace contributes to the figure (what its
  builder adds to an empty figure when the library accepts it), and \<open>expected_kind\<close> the
  kind of rendered trace it becomes.
\<close>

definition trace_kind :: "rendered_trace \<Rightarrow> string" where
  "trace_kind r = (case r of Bar _ \<Rightarrow> ''bar'' | Scatter _ \<Rightarrow> ''scatter'' | Pie _ \<Rightarrow> ''pie'')"

definition supported_type :: "pyval \<Rightarrow> bool" where
  "supported_type t = (trace_type t \<in> set (map PStr [''bar'', ''line'', ''scatter'', ''pie'']))"

definition expected_builder :: "pyval \<Rightarrow> builder option" where
  "expected_builder t =
     (if trace_type t = PStr ''bar'' then Some build_bar
      else if trace_type t = PStr ''line'' \<or> trace_type t = PStr ''scatter'' then Some build_line
      else if trace_type t = PStr ''pie'' then Some build_pie
      else None)"

definition expected_kind :: "pyval \<Rightarrow> string option" where
  "expected_kind t =
     (if trace_type t = PStr ''bar'' then Some ''bar''
      else if trace_type t = PStr ''line'' \<or> trace_type t = PStr ''scatter'' then Some ''scatter''
      else if trace_type t = PStr ''pie'' then Some ''pie''
      else None)"

definition expected_traces :: "pyval \<Rightarrow> rendered_trace list" where
  "expected_traces t =
     (case expected_builder t of
        None \<Rightarrow> []
      | Some builder \<Rightarrow>
          (case builder (\<lambda>r. True) new_figure (trace_items t) of
             Inl e \<Rightarrow> []
           | Inr fig \<Rightarrow> fig_data fig))"




section \<open>Chart-type detector: results\<close>

lemma capitalize_pie: "capitalize ''pie'' = ''Pie''"
  by (simp add: capitalize_def upper_char_def lower_char_def upper_letters_def lower_letters_def)

lemma capitalize_Unknown: "capitalize ''Unknown'' = ''Unknown''"
  by (simp add: capitalize_def upper_char_def lower_char_def upper_letters_def lower_letters_def)

text \<open>
  Claim C6. \<^verbatim>\<open>detect_chart_type\<close> returns \<^verbatim>\<open>Unknown\<close> when \<^verbatim>\<open>data\<close> is absent or
  empty and when the first trace has no \<^verbatim>\<open>type\<close>; otherwise it returns the type of the
  first trace, capitalised. On a plot whose only trace has type \<^verbatim>\<open>pie\<close> the label is
  \<^verbatim>\<open>Pie\<close>.
\<close>

theorem detect_chart_type_label:
  "(map_of spec ''data'' = None \<or> map_of spec ''data'' = Some (PList [])
      \<longrightarrow> detect_chart_type (PDict spec) = Inr ''Unknown'')
   \<and> (map_of spec ''data'' = Some (PList (PDict t # rest)) \<and> map_of t ''type'' = None
      \<longrightarrow> detect_chart_type (PDict spec) = Inr ''Unknown'')
   \<and> (map_of spec ''data'' = Some (PList (PDict t # rest)) \<and> map_of t ''type'' = Some (PStr s)
      \<longrightarrow> detect_chart_type (PDict spec) = Inr (capitalize s))
   \<and> detect_chart_type (PDict [(''data'', PList [PDict [(''type'', PStr ''pie'')]])]) = Inr ''Pie''"
  by (auto simp: detect_chart_type_def dict_get_def capitalize_pie capitalize_Unknown)

theorem detect_chart_type_label_witness:
  "detect_chart_type (PDict []) = Inr ''Unknown''
   \<and> detect_chart_type (PDict [(''data'', PList [])]) = Inr ''Unknown''
   \<and> detect_chart_type (PDict [(''data'', PList [PDict [(''x'', PList [PInt 1])]])]) = Inr ''Unknown''
   \<and> detect_chart_type (PDict [(''data'', PList [PDict [(''type'', PStr ''BAR'')], PDict []])]) = Inr ''Bar''"
  using detect_chart_type_label [of "[]"]
    detect_chart_type_label [of "[(''data'', PList [])]"]
    detect_chart_type_label [of "[(''data'', PList [PDict [(''x'', PList [PInt 1])]])]" "[(''x'', PList [PInt 1])]" "[]"]
    detect_chart_type_label [of "[(''data'', PList [PDict [(''type'', PStr ''BAR'')], PDict []])]" "[(''type'', PStr ''BAR'')]" "[PDict []]" "''BAR''"]
  by (simp add: capitalize_def upper_char_def lower_char_def upper_letters_def lower_letters_def)

section \<open>Selection and filter layer: results\<close>

text \<open>The scan behind \<^verbatim>\<open>in\<close> finds exactly the contiguous sublists.\<close>

lemma str_contains_sublist: "str_contains needle hay = sublist needle hay"
  by (induction hay) (simp_all add: sublist_Cons_right)

lemma search_from_strings:
  "\<forall>q\<in>set qs. is_str q \<Longrightarrow>
     search_from i t qs =
       Inr (filter (\<lambda>j. sublist (lower t) (lower (str_of (qs ! (j - i))))) [i ..< i + length qs])"
proof (induction qs arbitrary: i)
  case Nil
  then show ?case by simp
next
  case (Cons q qs)
  from Cons.prems obtain s where q: "q = PStr s"
    by (auto simp: is_str_def split: pyval.splits)
  have tl: "\<forall>q\<in>set qs. is_str q" using Cons.prems by simp
  have shift: "filter (\<lambda>j. sublist (lower t) (lower (str_of ((q # qs) ! (j - i))))) [Suc i ..< Suc i + length qs]
             = filter (\<lambda>j. sublist (lower t) (lower (str_of (qs ! (j - Suc i))))) [Suc i ..< Suc i + length qs]"
  proof (rule filter_cong [OF refl])
    fix j assume "j \<in> set [Suc i ..< Suc i + length qs]"
    then have "j - i = Suc (j - Suc i)" by auto
    then show "sublist (lower t) (lower (str_of ((q # qs) ! (j - i))))
             = sublist (lower t) (lower (str_of (qs ! (j - Suc i))))"
      by simp
  qed
  have upt: "[i ..< i + length (q # qs)] = i # [Suc i ..< Suc i + length qs]"
  proof -
    have "i < Suc i + length qs" by simp
    from upt_conv_Cons [OF this] show ?thesis by simp
  qed
  show ?case
    unfolding upt using shift
    by (simp add: q Cons.IH [OF tl] str_contains_sublist str_of_def)
qed

lemma queries_of_text:
  "\<forall>r\<in>set rs. query_is_text r \<Longrightarrow> queries_of rs = Inr (map (\<lambda>r. PStr (entry_query r)) rs)"
  by (induction rs)
     (auto simp: query_is_text_def entry_query_def dict_get_def split: pyval.splits option.splits)

lemma filtered_indices_text:
  assumes "\<forall>r\<in>set results. query_is_text r"
  shows "filtered_indices results search_term =
           Inr (if search_term = [] then [0 ..< length results]
                else filter (\<lambda>i. sublist (lower search_term) (lower (entry_query (results ! i))))
                       [0 ..< length results])"
proof -
  let ?qs = "map (\<lambda>r. PStr (entry_query r)) results"
  have strs: "\<forall>q\<in>set ?qs. is_str q" by (simp add: is_str_def)
  have "filter (\<lambda>j. sublist (lower search_term) (lower (str_of (?qs ! (j - 0))))) [0 ..< 0 + length ?qs]
      = filter (\<lambda>i. sublist (lower search_term) (lower (entry_query (results ! i)))) [0 ..< length results]"
    by (rule filter_cong) (simp_all add: str_of_def)
  with search_from_strings [OF strs, of 0 search_term] show ?thesis
    by (simp add: filtered_indices_def queries_of_text [OF assms])
qed

text \<open>
  Claim C7. With an empty search term the filter returns every index in order. With a
  non-empty term it returns, in increasing order, exactly the indices whose entry's query
  text contains the term, both lower-cased; when nothing matches the result is the empty
  list, not an error.
\<close>

theorem filter_by_search_term:
  assumes "\<forall>r\<in>set results. query_is_text r"
  shows "\<exists>out. filtered_indices results search_term = Inr out
           \<and> (search_term = [] \<longrightarrow> out = [0 ..< length results])
           \<and> (search_term \<noteq> [] \<longrightarrow>
                out = filter (\<lambda>i. sublist (lower search_term) (lower (entry_query (results ! i))))
                        [0 ..< length results])
           \<and> (search_term \<noteq> [] \<longrightarrow>
                (\<forall>i<length results.
                   i \<in> set out \<longleftrightarrow> sublist (lower search_term) (lower (entry_query (results ! i)))))
           \<and> (search_term \<noteq> []
                \<and> (\<forall>i<length results. \<not> sublist (lower search_term) (lower (entry_query (results ! i))))
                \<longrightarrow> out = [])"
  unfolding filtered_indices_text [OF assms]
  by (auto simp: filter_empty_conv)

theorem filter_by_search_term_witness:
  "query_is_text (PDict [(''query'', PStr ''Revenue Q1''), (''plot'', PDict [])])
   \<and> query_is_text (PDict [(''query'', PStr ''Revenue Q2''), (''plot'', PDict [])])
   \<and> filtered_indices [PDict [(''query'', PStr ''Revenue Q1''), (''plot'', PDict [])],
                        PDict [(''query'', PStr ''Revenue Q2''), (''plot'', PDict [])]] ''q2''
       = Inr [1]
   \<and> filtered_indices [PDict [(''query'', PStr ''Revenue Q1''), (''plot'', PDict [])],
                        PDict [(''query'', PStr ''Revenue Q2''), (''plot'', PDict [])]] []
       = Inr [0, 1]
   \<and> filtered_indices [PDict [(''query'', PStr ''Revenue Q1''), (''plot'', PDict [])],
                        PDict [(''query'', PStr ''Revenue Q2''), (''plot'', PDict [])]] ''XYZ''
       = Inr []"
proof -
  let ?R = "[PDict [(''query'', PStr ''Revenue Q1''), (''plot'', PDict [])],
             PDict [(''query'', PStr ''Revenue Q2''), (''plot'', PDict [])]]"
  have h: "\<forall>r\<in>set ?R. query_is_text r"
    by (simp add: query_is_text_def)
  have e1: "filtered_indices ?R ''q2'' = Inr [1]"
    by code_simp
  have e2: "filtered_indices ?R [] = Inr [0, 1]"
    by code_simp
  have e3: "filtered_indices ?R ''XYZ'' = Inr []"
    by code_simp
  from filter_by_search_term [OF h, of "''q2''"] h e1 e2 e3 show ?thesis by simp
qed

text \<open>
  Claim C10. An entry without a \<^verbatim>\<open>query\<close> field is listed and searched under the text
  \<^verbatim>\<open>Unnamed Query\<close>: a non-empty search term selects it exactly when the lower-cased
  term occurs in the lower-cased \<^verbatim>\<open>Unnamed Query\<close>.
\<close>

theorem unnamed_query_default:
  assumes "\<forall>r\<in>set results. query_is_text r"
    and "i < length results"
    and "results ! i = PDict kvs"
    and "map_of kvs ''query'' = None"
    and "search_term \<noteq> []"
  shows "\<exists>qs out. queries_of results = Inr qs \<and> qs ! i = PStr ''Unnamed Query''
           \<and> filtered_indices results search_term = Inr out
           \<and> (i \<in> set out \<longleftrightarrow> sublist (lower search_term) (lower ''Unnamed Query''))"
proof -
  have "entry_query (results ! i) = ''Unnamed Query''"
    using assms(3,4) by (simp add: entry_query_def)
  then show ?thesis
    using assms(2,5)
    by (simp add: filtered_indices_text [OF assms(1)] queries_of_text [OF assms(1)])
qed

theorem unnamed_query_default_witness:
  "query_is_text (PDict [(''plot'', PDict [])])
   \<and> query_is_text (PDict [(''query'', PStr ''Revenue Q2''), (''plot'', PDict [])])
   \<and> map_of [(''plot'', PDict [])] ''query'' = None
   \<and> filtered_indices [PDict [(''plot'', PDict [])],
                        PDict [(''query'', PStr ''Revenue Q2''), (''plot'', PDict [])]] ''NAME''
       = Inr [0]
   \<and> sublist (lower ''NAME'') (lower ''Unnamed Query'')"
proof -
  let ?R = "[PDict [(''plot'', PDict [])],
             PDict [(''query'', PStr ''Revenue Q2''), (''plot'', PDict [])]]"
  have h: "\<forall>r\<in>set ?R. query_is_text r"
    by (simp add: query_is_text_def)
  have e: "filtered_indices ?R ''NAME'' = Inr [0]"
    by code_simp
  have n: "map_of [(''plot'', PDict [])] ''query'' = None"
    by simp
  have ne: "''NAME'' \<noteq> []"
    by simp
  from unnamed_query_default [OF h _ _ n ne, of 0] e h n show ?thesis by simp
qed

section \<open>Data layer: results\<close>

subsection \<open>Sorting by a key through a decorated list\<close>

lemma is_dict_iff: "is_dict e \<longleftrightarrow> (\<exists>kvs. e = PDict kvs)"
  by (cases e) (simp_all add: is_dict_def)

lemma insort_key_map:
  "insort_key f (h x) (map h xs) = map h (insort_key (\<lambda>y. f (h y)) x xs)"
  by (induction xs) simp_all

lemma sort_key_map:
  "sort_key f (map h xs) = map h (sort_key (\<lambda>y. f (h y)) xs)"
  by (induction xs) (simp_all add: insort_key_map)

lemma insort_key_agree:
  "f x = g x \<Longrightarrow> \<forall>y\<in>set ys. f y = g y \<Longrightarrow> insort_key f x ys = insort_key g x ys"
  by (induction ys) simp_all

lemma sort_key_agree:
  "\<forall>x\<in>set xs. f x = g x \<Longrightarrow> sort_key f xs = sort_key g xs"
proof (induction xs)
  case Nil
  then show ?case by simp
next
  case (Cons x xs)
  then have "sort_key f xs = sort_key g xs" and "f x = g x"
    and "\<forall>y\<in>set (sort_key g xs). f y = g y"
    by simp_all
  then show ?case
    using insort_key_agree [of f x g "sort_key g xs"] by simp
qed

lemma with_plot_dicts:
  "\<forall>e\<in>set es. is_dict e \<Longrightarrow> with_plot es = Inr (filter has_plot es)"
  by (induction es) (auto simp: is_dict_iff has_plot_def)

lemma parse_timestamp_dict:
  "\<exists>dt. parse_timestamp fi (PDict kvs) = Inr dt"
  by (auto simp: parse_timestamp_def split: pyval.splits option.splits)

lemma decorate_total:
  "\<forall>x\<in>set xs. \<exists>k. key x = Inr k \<Longrightarrow>
     decorate key xs = Inr (map (\<lambda>x. (projr (key x), x)) xs)"
  by (induction xs) auto

lemma sorted_reverse_dicts:
  assumes "\<forall>e\<in>set xs. is_dict e"
  shows "sorted_reverse (parse_timestamp fi) xs = Inr (rev (sort_key (timestamp_key fi) (rev xs)))"
proof -
  have tot: "\<forall>x\<in>set xs. \<exists>k. parse_timestamp fi x = Inr k"
    using assms parse_timestamp_dict by (auto simp: is_dict_iff)
  have key: "\<And>x. x \<in> set xs \<Longrightarrow> utc_micros (projr (parse_timestamp fi x)) = timestamp_key fi x"
    using tot by (auto simp: timestamp_key_def)
  have "sort_key (\<lambda>y. utc_micros (projr (parse_timestamp fi y))) (rev xs)
      = sort_key (timestamp_key fi) (rev xs)"
    by (rule sort_key_agree) (simp add: key)
  moreover have "rev (map (\<lambda>x. (projr (parse_timestamp fi x), x)) xs)
      = map (\<lambda>x. (projr (parse_timestamp fi x), x)) (rev xs)"
    by (simp add: rev_map)
  ultimately have "map snd (sort_key (\<lambda>kx. utc_micros (fst kx))
                     (rev (map (\<lambda>x. (projr (parse_timestamp fi x), x)) xs)))
      = sort_key (timestamp_key fi) (rev xs)"
    by (simp only: sort_key_map fst_conv) (simp add: comp_def)
  then have "map snd (rev (sort_key (\<lambda>kx. utc_micros (fst kx))
                     (rev (map (\<lambda>x. (projr (parse_timestamp fi x), x)) xs))))
      = rev (sort_key (timestamp_key fi) (rev xs))"
    by (simp only: rev_map [symmetric])
  then show ?thesis
    by (simp only: sorted_reverse_def decorate_total [OF tot] sum.case)
qed

lemma is_dict_not_dict [simp]: "is_dict (PDict kvs)" "\<not> is_dict (PList xs)"
  by (simp_all add: is_dict_def)

lemma load_items:
  assumes "\<forall>e\<in>set es. is_dict e"
  shows "(case with_plot es of Inl e \<Rightarrow> Inl e
          | Inr results \<Rightarrow> sorted_reverse (parse_timestamp fi) results)
           = Inr (rev (sort_key (timestamp_key fi) (rev (filter has_plot es))))"
proof -
  have "\<forall>e\<in>set (filter has_plot es). is_dict e" using assms by simp
  from sorted_reverse_dicts [OF this] show ?thesis
    by (simp add: with_plot_dicts [OF assms])
qed

lemma load_results_list:
  assumes "fs path = Some content" and "jl content = Inr (PList es)"
    and "\<forall>e\<in>set es. is_dict e"
  shows "load_results jl fi fs path
           = Inr (rev (sort_key (timestamp_key fi) (rev (filter has_plot es))))"
  using load_items [OF assms(3)] by (simp add: load_results_def assms(1,2))

lemma load_results_object:
  assumes "fs path = Some content" and "jl content = Inr (PDict kvs)"
  shows "load_results jl fi fs path = Inr (if has_plot (PDict kvs) then [PDict kvs] else [])"
proof -
  have "\<forall>e\<in>set [PDict kvs]. is_dict e" by simp
  from load_items [OF this, of fi] show ?thesis
    by (simp add: load_results_def assms)
qed

text \<open>
  Claim C3. When the file holds a JSON list of objects, \<^verbatim>\<open>load_results\<close> returns exactly
  the objects that have a \<^verbatim>\<open>plot\<close> key: as many entries as there are such objects, never
  more than the list has, and no others. When the file holds a single object it is
  treated as the one-element list of that object, so a single object with a \<^verbatim>\<open>plot\<close>
  key loads as exactly one entry.
\<close>

theorem load_results_count:
  assumes "fs path = Some content"
  shows "(jl content = Inr (PList es) \<and> (\<forall>e\<in>set es. is_dict e) \<longrightarrow>
            (\<exists>out. load_results jl fi fs path = Inr out
               \<and> length out = length (filter has_plot es)
               \<and> length out \<le> length es
               \<and> set out = {e \<in> set es. has_plot e}))
       \<and> (jl content = Inr (PDict kvs) \<longrightarrow>
            load_results jl fi fs path
              = (if ''plot'' \<in> fst ` set kvs then Inr [PDict kvs] else Inr []))"
proof (intro conjI impI)
  assume a: "jl content = Inr (PList es) \<and> (\<forall>e\<in>set es. is_dict e)"
  then show "\<exists>out. load_results jl fi fs path = Inr out
               \<and> length out = length (filter has_plot es)
               \<and> length out \<le> length es
               \<and> set out = {e \<in> set es. has_plot e}"
    using load_results_list [of fs path content jl es fi] assms by auto
next
  assume "jl content = Inr (PDict kvs)"
  with load_results_object [of fs path content jl kvs fi] assms
  show "load_results jl fi fs path
          = (if ''plot'' \<in> fst ` set kvs then Inr [PDict kvs] else Inr [])"
    by (simp add: has_plot_def)
qed

theorem load_results_count_witness:
  "load_results Inr fromisoformat
     (Map.empty(''plots.json'' \<mapsto>
        PList [PDict [(''query'', PStr ''A''), (''plot'', PDict [])],
               PDict [(''query'', PStr ''B'')],
               PDict [(''query'', PStr ''C''), (''plot'', PDict [])]]))
     ''plots.json''
     = Inr [PDict [(''query'', PStr ''A''), (''plot'', PDict [])],
            PDict [(''query'', PStr ''C''), (''plot'', PDict [])]]
   \<and> load_results Inr fromisoformat
         (Map.empty(''plots.json'' \<mapsto> PDict [(''query'', PStr ''A''), (''plot'', PDict [])]))
         ''plots.json''
     = Inr [PDict [(''query'', PStr ''A''), (''plot'', PDict [])]]"
proof -
  let ?es = "[PDict [(''query'', PStr ''A''), (''plot'', PDict [])],
              PDict [(''query'', PStr ''B'')],
              PDict [(''query'', PStr ''C''), (''plot'', PDict [])]]"
  let ?kvs = "[(''query'', PStr ''A''), (''plot'', PDict [])]"
  let ?fs1 = "Map.empty(''plots.json'' \<mapsto> PList ?es)"
  let ?fs2 = "Map.empty(''plots.json'' \<mapsto> PDict ?kvs)"
  have a1: "?fs1 ''plots.json'' = Some (PList ?es)" by simp
  have a2: "?fs2 ''plots.json'' = Some (PDict ?kvs)" by simp
  have d: "\<forall>e\<in>set ?es. is_dict e" by (simp add: is_dict_def)
  have p: "''plot'' \<in> fst ` set ?kvs" by simp
  from load_results_count [of ?fs1 "''plots.json''" "PList ?es" Inr ?es fromisoformat ?kvs] a1 d
  obtain out where out: "load_results Inr fromisoformat ?fs1 ''plots.json'' = Inr out"
    and len: "length out = length (filter has_plot ?es)"
    and mem: "set out = {e \<in> set ?es. has_plot e}"
    by auto
  have e1: "load_results Inr fromisoformat ?fs1 ''plots.json''
              = Inr [PDict [(''query'', PStr ''A''), (''plot'', PDict [])],
                     PDict [(''query'', PStr ''C''), (''plot'', PDict [])]]"
    by code_simp
  from load_results_count [of ?fs2 "''plots.json''" "PDict ?kvs" Inr ?es fromisoformat ?kvs] a2 p
  have e2: "load_results Inr fromisoformat ?fs2 ''plots.json'' = Inr [PDict ?kvs]"
    by simp
  from e1 e2 show ?thesis by simp
qed

lemma invalid_timestamp_key:
  assumes "is_dict e" and "\<not> valid_timestamp fi e"
  shows "timestamp_key fi e = utc_micros min_utc"
proof -
  from assms(1) obtain kvs where e: "e = PDict kvs" by (auto simp: is_dict_iff)
  show ?thesis
  proof (cases "map_of kvs ''timestamp''")
    case None
    then show ?thesis
      by (simp add: e timestamp_key_def parse_timestamp_def dict_get_def min_utc_def)
  next
    case (Some v)
    show ?thesis
    proof (cases v)
      case (PStr s)
      with assms(2) Some have "s = [] \<or> fi s = None"
        by (auto simp: e valid_timestamp_def)
      then show ?thesis
        by (auto simp: e Some PStr timestamp_key_def parse_timestamp_def dict_get_def min_utc_def)
    qed (simp_all add: e Some timestamp_key_def parse_timestamp_def dict_get_def min_utc_def)
  qed
qed

lemma sorted_desc_sorted_reverse:
  "sorted_wrt (\<lambda>a b. f b \<le> f a) (rev (sort_key f xs))"
proof -
  have "sorted_wrt (\<lambda>a b. f a \<le> f b) (sort_key f xs)"
    using sorted_sort_key [of f xs] by (simp add: sorted_map)
  then show ?thesis by (simp add: sorted_wrt_rev)
qed

lemma stable_sorted_reverse:
  "filter (\<lambda>e. f e = k) (rev (sort_key f (rev xs))) = filter (\<lambda>e. f e = k) xs"
proof -
  have "filter (\<lambda>e. f e = k) (rev (sort_key f (rev xs)))
      = rev (filter (\<lambda>e. f e = k) (sort_key f (rev xs)))"
    by (simp add: rev_filter)
  also have "\<dots> = rev (filter (\<lambda>e. f e = k) (rev xs))"
    by (simp only: sort_key_stable)
  also have "\<dots> = filter (\<lambda>e. f e = k) xs"
    by (simp add: rev_filter)
  finally show ?thesis .
qed

lemma decorate_Inr:
  "decorate key xs = Inr kxs \<Longrightarrow> \<forall>x\<in>set xs. \<exists>k. key x = Inr k"
  by (induction xs arbitrary: kxs) (auto split: sum.splits)

lemma parse_timestamp_Inr_dict: "parse_timestamp fi x = Inr k \<Longrightarrow> is_dict x"
  by (cases x) (simp_all add: parse_timestamp_def is_dict_def)

lemma sorted_reverse_Inr_dicts:
  "sorted_reverse (parse_timestamp fi) xs = Inr ys \<Longrightarrow> \<forall>x\<in>set xs. is_dict x"
  by (auto simp: sorted_reverse_def split: sum.splits
           dest!: decorate_Inr intro: parse_timestamp_Inr_dict)

lemma with_plot_Inr:
  "with_plot items = Inr rs \<Longrightarrow> \<forall>r\<in>set rs. py_in ''plot'' r = Inr True"
  by (induction items arbitrary: rs) (auto split: sum.splits if_splits)

lemma py_in_dict_has_plot: "is_dict r \<Longrightarrow> py_in ''plot'' r = Inr True \<Longrightarrow> has_plot r"
  by (auto simp: is_dict_iff has_plot_def)

lemma load_results_Inr:
  assumes "load_results jl fi fs path = Inr results"
  shows "\<exists>xs. (\<forall>x\<in>set xs. is_dict x \<and> has_plot x)
           \<and> results = rev (sort_key (timestamp_key fi) (rev xs))"
proof (cases "fs path")
  case None
  with assms have "results = []" by (simp add: load_results_def)
  then show ?thesis by (intro exI [of _ "[]"]) simp
next
  case (Some content)
  with assms obtain raw items xs where
    "with_plot items = Inr xs" and sr: "sorted_reverse (parse_timestamp fi) xs = Inr results"
    by (auto simp: load_results_def split: sum.splits)
  from with_plot_Inr [OF this(1)] have pl: "\<forall>r\<in>set xs. py_in ''plot'' r = Inr True" .
  from sorted_reverse_Inr_dicts [OF sr] have d: "\<forall>x\<in>set xs. is_dict x" .
  from sorted_reverse_dicts [OF d, of fi] sr
  have "results = rev (sort_key (timestamp_key fi) (rev xs))" by simp
  with d pl py_in_dict_has_plot show ?thesis by blast
qed

lemma sorted_reverse_idem:
  "rev (sort_key f (rev (rev (sort_key f xs)))) = rev (sort_key f xs)"
  by (simp add: sort_key_id_if_sorted)

lemma with_plot_filter:
  "with_plot items = Inr xs \<Longrightarrow> \<forall>x\<in>set xs. is_dict x \<Longrightarrow> xs = filter has_plot items"
proof (induction items arbitrary: xs)
  case Nil
  then show ?case by simp
next
  case (Cons r rs)
  from Cons.prems(1) obtain b rs' where
    b: "py_in ''plot'' r = Inr b" and rs': "with_plot rs = Inr rs'"
    and xs: "xs = (if b then r # rs' else rs')"
    by (auto split: sum.splits)
  from Cons.prems(2) xs have d: "\<forall>x\<in>set rs'. is_dict x"
    by (simp split: if_splits)
  note ih = Cons.IH [OF rs' d]
  show ?case
  proof (cases b)
    case True
    with Cons.prems(2) xs have "is_dict r" by simp
    with b True have "has_plot r" by (simp add: py_in_dict_has_plot)
    with ih xs True show ?thesis by simp
  next
    case False
    with b have "\<not> has_plot r"
      by (cases r) (simp_all add: has_plot_def)
    with ih xs False show ?thesis by simp
  qed
qed

lemma load_results_Inr_items:
  assumes "load_results jl fi fs path = Inr out"
  shows "(\<forall>x\<in>set out. is_dict x)
           \<and> out = rev (sort_key (timestamp_key fi) (rev (filter has_plot (json_items jl fs path))))"
proof (cases "fs path")
  case None
  with assms have "out = []" by (simp add: load_results_def)
  with None show ?thesis by (simp add: json_items_def)
next
  case (Some content)
  with assms obtain raw items xs where
    raw: "jl content = Inr raw"
    and it: "py_iter (if is_dict raw then PList [raw] else raw) = Inr items"
    and wp: "with_plot items = Inr xs"
    and sr: "sorted_reverse (parse_timestamp fi) xs = Inr out"
    by (auto simp: load_results_def split: sum.splits)
  from it have items: "json_items jl fs path = items"
    by (simp add: json_items_def Some raw split: if_splits)
  from sorted_reverse_Inr_dicts [OF sr] have d: "\<forall>x\<in>set xs. is_dict x" .
  from with_plot_filter [OF wp d] have xs: "xs = filter has_plot items" .
  from sorted_reverse_dicts [OF d, of fi] sr
  have out: "out = rev (sort_key (timestamp_key fi) (rev xs))" by simp
  from d out have "\<forall>x\<in>set out. is_dict x" by simp
  with out xs items show ?thesis by simp
qed

text \<open>
  Claim C2, as the code has it. For every JSON input, the list \<^verbatim>\<open>load_results\<close> returns
  is sorted by the parsed timestamp in descending order, and entries with equal keys
  keep the order they had in the input. An entry whose timestamp is missing or does not
  parse takes the minimum time as its key, so it comes after every entry whose timestamp
  is valid and strictly later than that minimum; a valid timestamp that denotes the
  minimum itself, or an earlier instant, is not placed before it.
\<close>

theorem load_results_order:
  assumes "load_results jl fi fs path = Inr out"
  shows "sorted_wrt (\<lambda>a b. timestamp_key fi b \<le> timestamp_key fi a) out
           \<and> (\<forall>k. filter (\<lambda>e. timestamp_key fi e = k) out
                   = filter (\<lambda>e. timestamp_key fi e = k) (filter has_plot (json_items jl fs path)))
           \<and> (\<forall>i j. i < length out \<and> j < length out
                  \<and> valid_timestamp fi (out ! i)
                  \<and> utc_micros min_utc < timestamp_key fi (out ! i)
                  \<and> \<not> valid_timestamp fi (out ! j) \<longrightarrow> i < j)"
proof -
  let ?K = "timestamp_key fi"
  let ?xs = "filter has_plot (json_items jl fs path)"
  from load_results_Inr_items [OF assms]
  have dicts: "\<forall>e\<in>set out. is_dict e" and out: "out = rev (sort_key ?K (rev ?xs))"
    by simp_all
  have srt: "sorted_wrt (\<lambda>a b. ?K b \<le> ?K a) out"
    unfolding out by (rule sorted_desc_sorted_reverse)
  have stab: "\<forall>k. filter (\<lambda>e. ?K e = k) out = filter (\<lambda>e. ?K e = k) ?xs"
    unfolding out by (simp only: stable_sorted_reverse) simp
  have last: "i < j"
    if "i < length out" "j < length out" "utc_micros min_utc < ?K (out ! i)"
       "\<not> valid_timestamp fi (out ! j)" for i j
  proof (rule ccontr)
    assume "\<not> i < j"
    then have "j \<le> i" by simp
    have kj: "?K (out ! j) = utc_micros min_utc"
      using dicts that(2,4) invalid_timestamp_key nth_mem by blast
    show False
    proof (cases "j = i")
      case True
      with kj that(3) show False by simp
    next
      case False
      with \<open>j \<le> i\<close> have "j < i" by simp
      from sorted_wrt_nth_less [OF srt this that(1)] have "?K (out ! i) \<le> ?K (out ! j)" .
      with kj that(3) show False by simp
    qed
  qed
  show ?thesis
    using srt stab last by blast
qed

theorem load_results_order_witness:
  "load_results Inr fromisoformat
     (Map.empty(''plots.json'' \<mapsto>
        PList [PStr ''note'',
               PDict [(''query'', PStr ''Revenue Q2''), (''plot'', PDict [])],
               PDict [(''query'', PStr ''Revenue Q1''),
                      (''timestamp'', PStr ''2024-01-01T00:00:00''), (''plot'', PDict [])]]))
     ''plots.json''
     = Inr [PDict [(''query'', PStr ''Revenue Q1''),
                   (''timestamp'', PStr ''2024-01-01T00:00:00''), (''plot'', PDict [])],
            PDict [(''query'', PStr ''Revenue Q2''), (''plot'', PDict [])]]
   \<and> sorted_wrt (\<lambda>a b. timestamp_key fromisoformat b \<le> timestamp_key fromisoformat a)
         [PDict [(''query'', PStr ''Revenue Q1''),
                 (''timestamp'', PStr ''2024-01-01T00:00:00''), (''plot'', PDict [])],
          PDict [(''query'', PStr ''Revenue Q2''), (''plot'', PDict [])]]
   \<and> valid_timestamp fromisoformat
         (PDict [(''query'', PStr ''Revenue Q1''),
                 (''timestamp'', PStr ''2024-01-01T00:00:00''), (''plot'', PDict [])])
   \<and> utc_micros min_utc
         < timestamp_key fromisoformat
             (PDict [(''query'', PStr ''Revenue Q1''),
                     (''timestamp'', PStr ''2024-01-01T00:00:00''), (''plot'', PDict [])])
   \<and> \<not> valid_timestamp fromisoformat (PDict [(''query'', PStr ''Revenue Q2''), (''plot'', PDict [])])"
proof -
  let ?q1 = "PDict [(''query'', PStr ''Revenue Q1''),
                    (''timestamp'', PStr ''2024-01-01T00:00:00''), (''plot'', PDict [])]"
  let ?q2 = "PDict [(''query'', PStr ''Revenue Q2''), (''plot'', PDict [])]"
  let ?fs = "Map.empty(''plots.json'' \<mapsto> PList [PStr ''note'', ?q2, ?q1])"
  have l: "load_results Inr fromisoformat ?fs ''plots.json'' = Inr [?q1, ?q2]"
    by code_simp
  have "sorted_wrt (\<lambda>a b. timestamp_key fromisoformat b \<le> timestamp_key fromisoformat a)
          [?q1, ?q2]"
    by (rule conjunct1 [OF load_results_order [OF l]])
  moreover have "valid_timestamp fromisoformat ?q1"
    by code_simp
  moreover have "utc_micros min_utc < timestamp_key fromisoformat ?q1"
    by code_simp
  moreover have "\<not> valid_timestamp fromisoformat ?q2"
    by code_simp
  ultimately show ?thesis using l by simp
qed

text \<open>
  The sentence of claim C2 that every entry without a valid timestamp comes after all
  entries with one fails where a valid timestamp denotes the minimum time: the entry
  without a timestamp and the entry stamped \<^verbatim>\<open>0001-01-01T00:00:00\<close> have equal keys,
  and the stable sort leaves them in file order.
\<close>

theorem fallback_not_last_counterexample:
  "load_results Inr fromisoformat
     (Map.empty(''plots.json'' \<mapsto>
        PList [PDict [(''query'', PStr ''A''), (''plot'', PDict [])],
               PDict [(''query'', PStr ''B''), (''timestamp'', PStr ''0001-01-01T00:00:00''),
                      (''plot'', PDict [])]]))
     ''plots.json''
   = Inr [PDict [(''query'', PStr ''A''), (''plot'', PDict [])],
          PDict [(''query'', PStr ''B''), (''timestamp'', PStr ''0001-01-01T00:00:00''),
                 (''plot'', PDict [])]]
   \<and> \<not> valid_timestamp fromisoformat (PDict [(''query'', PStr ''A''), (''plot'', PDict [])])
   \<and> valid_timestamp fromisoformat
        (PDict [(''query'', PStr ''B''), (''timestamp'', PStr ''0001-01-01T00:00:00''),
                (''plot'', PDict [])])"
  by code_simp

text \<open>
  Claim C4. On an entry (a dictionary) \<^verbatim>\<open>parse_timestamp\<close> never raises and always
  returns a value with a time zone. It is the minimum time in UTC when the \<^verbatim>\<open>timestamp\<close>
  field is absent or empty, when the string does not parse, and when the field is not a
  string at all; when the string parses to a value without a time zone, the result is that
  value with UTC attached.
\<close>

theorem parse_timestamp_total:
  "(\<exists>dt. parse_timestamp fi (PDict kvs) = Inr dt \<and> tzinfo dt \<noteq> None)
   \<and> (map_of kvs ''timestamp'' = None \<or> map_of kvs ''timestamp'' = Some (PStr [])
        \<longrightarrow> parse_timestamp fi (PDict kvs) = Inr (replace_tzinfo datetime_min timezone_utc))
   \<and> (map_of kvs ''timestamp'' = Some (PStr s) \<and> s \<noteq> [] \<and> fi s = Some dt \<and> tzinfo dt = None
        \<longrightarrow> parse_timestamp fi (PDict kvs) = Inr (dt\<lparr>tzinfo := Some timezone_utc\<rparr>))
   \<and> (map_of kvs ''timestamp'' = Some (PStr s) \<and> fi s = None
        \<longrightarrow> parse_timestamp fi (PDict kvs) = Inr (replace_tzinfo datetime_min timezone_utc))
   \<and> (map_of kvs ''timestamp'' = Some v \<and> (\<forall>t. v \<noteq> PStr t)
        \<longrightarrow> parse_timestamp fi (PDict kvs) = Inr (replace_tzinfo datetime_min timezone_utc))"
proof (intro conjI impI)
  show "\<exists>dt. parse_timestamp fi (PDict kvs) = Inr dt \<and> tzinfo dt \<noteq> None"
    by (auto simp: parse_timestamp_def replace_tzinfo_def split: pyval.splits option.splits)
next
  assume "map_of kvs ''timestamp'' = None \<or> map_of kvs ''timestamp'' = Some (PStr [])"
  then show "parse_timestamp fi (PDict kvs) = Inr (replace_tzinfo datetime_min timezone_utc)"
    by (auto simp: parse_timestamp_def dict_get_def)
next
  assume "map_of kvs ''timestamp'' = Some (PStr s) \<and> s \<noteq> [] \<and> fi s = Some dt \<and> tzinfo dt = None"
  then show "parse_timestamp fi (PDict kvs) = Inr (dt\<lparr>tzinfo := Some timezone_utc\<rparr>)"
    by (simp add: parse_timestamp_def dict_get_def replace_tzinfo_def)
next
  assume "map_of kvs ''timestamp'' = Some (PStr s) \<and> fi s = None"
  then show "parse_timestamp fi (PDict kvs) = Inr (replace_tzinfo datetime_min timezone_utc)"
    by (simp add: parse_timestamp_def dict_get_def)
next
  assume "map_of kvs ''timestamp'' = Some v \<and> (\<forall>t. v \<noteq> PStr t)"
  then show "parse_timestamp fi (PDict kvs) = Inr (replace_tzinfo datetime_min timezone_utc)"
    by (cases v) (simp_all add: parse_timestamp_def dict_get_def)
qed

theorem parse_timestamp_total_witness:
  "parse_timestamp fromisoformat (PDict [(''timestamp'', PStr ''2024-01-01T00:00:00'')])
     = Inr \<lparr>year = 2024, month = 1, day = 1, hour = 0, minute = 0, second = 0,
             microsecond = 0, tzinfo = Some 0\<rparr>
   \<and> parse_timestamp fromisoformat (PDict [(''query'', PStr ''A'')])
       = Inr (replace_tzinfo datetime_min timezone_utc)
   \<and> parse_timestamp fromisoformat (PDict [(''timestamp'', PStr ''yesterday'')])
       = Inr (replace_tzinfo datetime_min timezone_utc)
   \<and> parse_timestamp fromisoformat (PDict [(''timestamp'', PInt 5)])
       = Inr (replace_tzinfo datetime_min timezone_utc)"
proof -
  let ?dt = "\<lparr>year = 2024, month = 1, day = 1, hour = 0, minute = 0, second = 0,
               microsecond = 0, tzinfo = None\<rparr>"
  have p: "fromisoformat ''2024-01-01T00:00:00'' = Some ?dt"
    by code_simp
  have q: "fromisoformat ''yesterday'' = None"
    by code_simp
  from parse_timestamp_total [of fromisoformat "[(''timestamp'', PStr ''2024-01-01T00:00:00'')]"
         "''2024-01-01T00:00:00''" ?dt] p
  have 1: "parse_timestamp fromisoformat (PDict [(''timestamp'', PStr ''2024-01-01T00:00:00'')])
             = Inr (?dt\<lparr>tzinfo := Some timezone_utc\<rparr>)"
    by simp
  from parse_timestamp_total [of fromisoformat "[(''query'', PStr ''A'')]"]
  have 2: "parse_timestamp fromisoformat (PDict [(''query'', PStr ''A'')])
             = Inr (replace_tzinfo datetime_min timezone_utc)"
    by simp
  from parse_timestamp_total [of fromisoformat "[(''timestamp'', PStr ''yesterday'')]" "''yesterday''"] q
  have 3: "parse_timestamp fromisoformat (PDict [(''timestamp'', PStr ''yesterday'')])
             = Inr (replace_tzinfo datetime_min timezone_utc)"
    by simp
  from parse_timestamp_total [of fromisoformat "[(''timestamp'', PInt 5)]" _ _ "PInt 5"]
  have 4: "parse_timestamp fromisoformat (PDict [(''timestamp'', PInt 5)])
             = Inr (replace_tzinfo datetime_min timezone_utc)"
    by simp
  from 1 2 3 4 show ?thesis by (simp add: timezone_utc_def)
qed

subsection \<open>Export and reload\<close>

text \<open>
  Claim C8. Let \<open>results\<close> be what \<^verbatim>\<open>load_results\<close> returned, and let a file hold the text
  the download action produces from it, which is \<^verbatim>\<open>json.dumps\<close> of the whole list. The
  \<^verbatim>\<open>json\<close> module is outside the repository; what is assumed of it is its own round trip,
  that \<^verbatim>\<open>json.load\<close> reads back the value \<^verbatim>\<open>json.dumps\<close> was given, whatever that value is.
  Then loading the file returns \<open>results\<close> again: the same entries in the same order. The
  exported value is the full list, a list is not wrapped, every entry still has its
  \<^verbatim>\<open>plot\<close> key, and sorting a list that is already sorted leaves it as it is.
\<close>

theorem export_reload_roundtrip:
  assumes "load_results jl fi fs path = Inr results"
    and "\<forall>v. jl (jd v) = Inr v"
    and "fs' path' = Some (render_download jd results)"
  shows "load_results jl fi fs' path' = Inr results"
proof -
  from load_results_Inr [OF assms(1)] obtain xs where
    xs: "\<forall>x\<in>set xs. is_dict x \<and> has_plot x"
    and res: "results = rev (sort_key (timestamp_key fi) (rev xs))"
    by blast
  have d: "\<forall>e\<in>set results. is_dict e" using xs res by simp
  have p: "filter has_plot results = results" using xs res by simp
  have "jl (render_download jd results) = Inr (PList results)"
    using assms(2) by (simp add: render_download_def)
  from load_results_list [of fs' path' "render_download jd results" jl results fi, OF assms(3) this d]
  have "load_results jl fi fs' path' = Inr (rev (sort_key (timestamp_key fi) (rev results)))"
    by (simp only: p)
  then show ?thesis
    by (simp add: res sort_key_id_if_sorted)
qed

theorem export_reload_roundtrip_witness:
  "load_results Inr fromisoformat
     (Map.empty(''plots.json'' \<mapsto>
        PList [PDict [(''query'', PStr ''Revenue Q2''), (''plot'', PDict [])],
               PDict [(''query'', PStr ''Revenue Q1''),
                      (''timestamp'', PStr ''2024-01-01T00:00:00''), (''plot'', PDict [])]]))
     ''plots.json''
     = Inr [PDict [(''query'', PStr ''Revenue Q1''),
                   (''timestamp'', PStr ''2024-01-01T00:00:00''), (''plot'', PDict [])],
            PDict [(''query'', PStr ''Revenue Q2''), (''plot'', PDict [])]]
   \<and> load_results Inr fromisoformat
         (Map.empty(''ai_generated_plots.json'' \<mapsto>
            render_download id
              [PDict [(''query'', PStr ''Revenue Q1''),
                      (''timestamp'', PStr ''2024-01-01T00:00:00''), (''plot'', PDict [])],
               PDict [(''query'', PStr ''Revenue Q2''), (''plot'', PDict [])]]))
         ''ai_generated_plots.json''
     = Inr [PDict [(''query'', PStr ''Revenue Q1''),
                   (''timestamp'', PStr ''2024-01-01T00:00:00''), (''plot'', PDict [])],
            PDict [(''query'', PStr ''Revenue Q2''), (''plot'', PDict [])]]"
proof -
  let ?q1 = "PDict [(''query'', PStr ''Revenue Q1''),
                    (''timestamp'', PStr ''2024-01-01T00:00:00''), (''plot'', PDict [])]"
  let ?q2 = "PDict [(''query'', PStr ''Revenue Q2''), (''plot'', PDict [])]"
  let ?fs = "Map.empty(''plots.json'' \<mapsto> PList [?q2, ?q1])"
  let ?fs' = "Map.empty(''ai_generated_plots.json'' \<mapsto> render_download id [?q1, ?q2])"
  have l: "load_results Inr fromisoformat ?fs ''plots.json'' = Inr [?q1, ?q2]"
    by code_simp
  have j: "\<forall>v. (Inr (id v) :: error + pyval) = Inr v"
    by simp
  have f: "?fs' ''ai_generated_plots.json'' = Some (render_download id [?q1, ?q2])"
    by simp
  have "load_results Inr fromisoformat ?fs' ''ai_generated_plots.json'' = Inr [?q1, ?q2]"
    by (rule export_reload_roundtrip [where jd = id]) (rule l, rule j, rule f)
  with l show ?thesis by simp
qed

subsection \<open>The cached loader\<close>

lemma load_results_path_only:
  "fs path = fs0 path \<Longrightarrow> load_results jl fi fs path = load_results jl fi fs0 path"
  by (simp add: load_results_def)

text \<open>
  Claim C9, as the code has it. The cache is keyed by the path alone. A call returns what
  an uncached load of the current file returns whenever the file at that path is the one
  the cached values were computed from; and after the call the value stored for the path
  is again the uncached result. Nothing in the cache looks at the file, so a change of
  its content does not invalidate the stored value.
\<close>

theorem cached_load_unchanged_file:
  assumes "\<forall>p r. cache p = Some r \<longrightarrow> load_results jl fi fs0 p = Inr r"
    and "fs path = fs0 path"
  shows "fst (cached_load_results jl fi cache fs path) = load_results jl fi fs path
       \<and> (\<forall>r. snd (cached_load_results jl fi cache fs path) path = Some r
              \<longrightarrow> load_results jl fi fs path = Inr r)"
proof (cases "cache path")
  case None
  then show ?thesis
    by (simp add: cached_load_results_def split: sum.splits)
next
  case (Some r)
  with assms(1) have "load_results jl fi fs0 path = Inr r" by simp
  with load_results_path_only [of fs path fs0 jl fi] assms(2) have "load_results jl fi fs path = Inr r"
    by simp
  with Some show ?thesis
    by (simp add: cached_load_results_def)
qed

theorem cached_load_unchanged_file_witness:
  "fst (cached_load_results Inr fromisoformat
          (Map.empty(''plots.json'' \<mapsto> [PDict [(''query'', PStr ''Q1''), (''plot'', PDict [])]]))
          (Map.empty(''plots.json'' \<mapsto>
             PList [PDict [(''query'', PStr ''Q1''), (''plot'', PDict [])]]))
          ''plots.json'')
     = Inr [PDict [(''query'', PStr ''Q1''), (''plot'', PDict [])]]
   \<and> load_results Inr fromisoformat
         (Map.empty(''plots.json'' \<mapsto>
            PList [PDict [(''query'', PStr ''Q1''), (''plot'', PDict [])]]))
         ''plots.json''
     = Inr [PDict [(''query'', PStr ''Q1''), (''plot'', PDict [])]]"
proof -
  let ?e = "PDict [(''query'', PStr ''Q1''), (''plot'', PDict [])]"
  let ?cache = "Map.empty(''plots.json'' \<mapsto> [?e])"
  let ?fs = "Map.empty(''plots.json'' \<mapsto> PList [?e])"
  have l: "load_results Inr fromisoformat ?fs ''plots.json'' = Inr [?e]"
    by code_simp
  have c: "\<forall>p r. ?cache p = Some r \<longrightarrow> load_results Inr fromisoformat ?fs p = Inr r"
    using l by simp
  have "fst (cached_load_results Inr fromisoformat ?cache ?fs ''plots.json'')
          = load_results Inr fromisoformat ?fs ''plots.json''"
    using cached_load_unchanged_file [where fs0 = ?fs, OF c refl] by (rule conjunct1)
  with l show ?thesis by simp
qed

text \<open>
  The file changes between two calls: the second call still returns the list computed
  from the first content, while an uncached load returns the new one.
\<close>

theorem stale_cache_counterexample:
  "fst (cached_load_results Inr fromisoformat
         (snd (cached_load_results Inr fromisoformat Map.empty
                 (Map.empty(''plots.json'' \<mapsto>
                    PList [PDict [(''query'', PStr ''Q1''), (''plot'', PDict [])]]))
                 ''plots.json''))
         (Map.empty(''plots.json'' \<mapsto>
            PList [PDict [(''query'', PStr ''Q2''), (''plot'', PDict [])]]))
         ''plots.json'')
     = Inr [PDict [(''query'', PStr ''Q1''), (''plot'', PDict [])]]
   \<and> load_results Inr fromisoformat
         (Map.empty(''plots.json'' \<mapsto>
            PList [PDict [(''query'', PStr ''Q2''), (''plot'', PDict [])]]))
         ''plots.json''
     = Inr [PDict [(''query'', PStr ''Q2''), (''plot'', PDict [])]]"
  by code_simp

section \<open>Plot rendering layer: chart builder\<close>

lemma map_of_TRACE_BUILDERS:
  "map_of TRACE_BUILDERS s =
     (if s = ''bar'' then Some build_bar
      else if s = ''line'' then Some build_line
      else if s = ''scatter'' then Some build_line
      else if s = ''pie'' then Some build_pie
      else None)"
  by (simp add: TRACE_BUILDERS_def)

lemma builders_get_expected:
  assumes "hashable (trace_type (PDict kvs))"
  shows "builders_get (dict_get kvs ''type'' PNone) = Inr (expected_builder (PDict kvs))"
proof (cases "dict_get kvs ''type'' PNone")
  case (PStr s)
  then show ?thesis
    by (simp add: trace_type_def expected_builder_def map_of_TRACE_BUILDERS)
next
  case (PList xs)
  with assms show ?thesis by (simp add: hashable_def trace_type_def)
next
  case (PDict d)
  with assms show ?thesis by (simp add: hashable_def trace_type_def)
qed (simp_all add: trace_type_def expected_builder_def)

text \<open>Each builder makes one trace from the mapping it is given and adds it.\<close>

lemma build_bar_adds:
  "\<exists>r. trace_kind r = ''bar'' \<and> (\<forall>accepts fig. build_bar accepts fig kvs = add_trace accepts fig r)"
  unfolding build_bar_def
  by (rule exI, rule conjI [rotated], intro allI, rule refl, simp add: trace_kind_def)

lemma build_line_adds:
  "\<exists>r. trace_kind r = ''scatter'' \<and> (\<forall>accepts fig. build_line accepts fig kvs = add_trace accepts fig r)"
  unfolding build_line_def
  by (rule exI, rule conjI [rotated], intro allI, rule refl, simp add: trace_kind_def)

lemma build_pie_adds:
  "\<exists>r. trace_kind r = ''pie'' \<and> (\<forall>accepts fig. build_pie accepts fig kvs = add_trace accepts fig r)"
  unfolding build_pie_def
  by (rule exI, rule conjI [rotated], intro allI, rule refl, simp add: trace_kind_def)

lemma expected_builder_cases:
  assumes "expected_builder t = Some b"
  shows "(b = build_bar \<and> expected_kind t = Some ''bar'')
       \<or> (b = build_line \<and> expected_kind t = Some ''scatter'')
       \<or> (b = build_pie \<and> expected_kind t = Some ''pie'')"
proof -
  consider "trace_type t = PStr ''bar''"
    | "trace_type t \<noteq> PStr ''bar''" "trace_type t = PStr ''line'' \<or> trace_type t = PStr ''scatter''"
    | "trace_type t \<noteq> PStr ''bar''" "trace_type t \<noteq> PStr ''line''"
      "trace_type t \<noteq> PStr ''scatter''" "trace_type t = PStr ''pie''"
    | "trace_type t \<noteq> PStr ''bar''" "trace_type t \<noteq> PStr ''line''"
      "trace_type t \<noteq> PStr ''scatter''" "trace_type t \<noteq> PStr ''pie''"
    by blast
  then show ?thesis
  proof cases
    case 1
    with assms show ?thesis by (simp add: expected_builder_def expected_kind_def)
  next
    case 2
    with assms show ?thesis by (simp add: expected_builder_def expected_kind_def)
  next
    case 3
    with assms show ?thesis by (simp add: expected_builder_def expected_kind_def)
  next
    case 4
    with assms show ?thesis by (simp add: expected_builder_def)
  qed
qed

lemma expected_builder_adds:
  assumes "expected_builder t = Some b"
  shows "\<exists>r. expected_kind t = Some (trace_kind r)
           \<and> (\<forall>accepts fig. b accepts fig kvs = add_trace accepts fig r)"
  using expected_builder_cases [OF assms]
    build_bar_adds [of kvs] build_line_adds [of kvs] build_pie_adds [of kvs]
  by metis

lemma expected_builder_None:
  "expected_builder t = None \<Longrightarrow> expected_kind t = None \<and> \<not> supported_type t"
  by (simp add: expected_builder_def expected_kind_def supported_type_def split: if_splits)

lemma expected_kind_supported:
  "expected_kind t = Some k \<Longrightarrow> supported_type t"
  by (auto simp add: expected_kind_def supported_type_def split: if_splits)

lemma expected_traces_None:
  "expected_builder t = None \<Longrightarrow> expected_traces t = []"
  by (simp add: expected_traces_def)

lemma expected_traces_Some:
  assumes "expected_builder t = Some b"
    and "\<forall>accepts fig. b accepts fig (trace_items t) = add_trace accepts fig r"
  shows "expected_traces t = [r]"
  using assms by (simp add: expected_traces_def add_trace_def new_figure_def)

lemma add_traces_well_formed:
  assumes "\<forall>t\<in>set traces. well_formed_trace t"
    and "\<forall>r\<in>set (concat (map expected_traces traces)). accepts r"
  shows "add_traces accepts fig traces
           = Inr (fig\<lparr>fig_data := fig_data fig @ concat (map expected_traces traces)\<rparr>)"
  using assms
proof (induction traces arbitrary: fig)
  case Nil
  show ?case by simp
next
  case (Cons t rest)
  from Cons.prems(1) have wf: "well_formed_trace t" and rest: "\<forall>t\<in>set rest. well_formed_trace t"
    by simp_all
  from Cons.prems(2) have acc_t: "\<forall>r\<in>set (expected_traces t). accepts r"
    and acc_rest: "\<forall>r\<in>set (concat (map expected_traces rest)). accepts r"
    by simp_all
  from wf obtain kvs where t: "t = PDict kvs"
    by (auto simp add: well_formed_trace_def is_dict_iff)
  from wf t have h: "hashable (trace_type (PDict kvs))"
    by (simp add: well_formed_trace_def)
  note bg = builders_get_expected [OF h]
  show ?case
  proof (cases "expected_builder (PDict kvs)")
    case None
    have e: "expected_traces t = []"
      using None t by (simp add: expected_traces_None)
    have "add_traces accepts fig (t # rest) = add_traces accepts fig rest"
      using None bg t by simp
    also have "\<dots> = Inr (fig\<lparr>fig_data := fig_data fig @ concat (map expected_traces rest)\<rparr>)"
      by (rule Cons.IH [OF rest acc_rest])
    finally show ?thesis by (simp add: e)
  next
    case (Some b)
    from expected_builder_adds [OF Some, of kvs] obtain r where
      r: "\<forall>accepts fig. b accepts fig kvs = add_trace accepts fig r" by blast
    have e: "expected_traces t = [r]"
      using expected_traces_Some [of t b r] Some r t by (simp add: trace_items_def)
    with acc_t have "accepts r" by simp
    with r have step: "b accepts fig kvs = Inr (fig\<lparr>fig_data := fig_data fig @ [r]\<rparr>)"
      by (simp add: add_trace_def)
    let ?fig = "fig\<lparr>fig_data := fig_data fig @ [r]\<rparr>"
    have "add_traces accepts fig (t # rest) = add_traces accepts ?fig rest"
      using Some bg t step by simp
    also have "\<dots> = Inr (?fig\<lparr>fig_data := fig_data ?fig @ concat (map expected_traces rest)\<rparr>)"
      by (rule Cons.IH [OF rest acc_rest])
    finally show ?thesis by (simp add: e)
  qed
qed

lemma expected_traces_kind:
  "map trace_kind (expected_traces t) = (case expected_kind t of None \<Rightarrow> [] | Some k \<Rightarrow> [k])"
proof (cases "expected_builder t")
  case None
  then show ?thesis
    by (simp add: expected_traces_None expected_builder_None)
next
  case (Some b)
  from expected_builder_adds [OF Some, of "trace_items t"] obtain r where
    k: "expected_kind t = Some (trace_kind r)"
    and r: "\<forall>accepts fig. b accepts fig (trace_items t) = add_trace accepts fig r" by blast
  from expected_traces_Some [OF Some r] k show ?thesis by simp
qed

lemma concat_kinds:
  "map trace_kind (concat (map expected_traces traces)) = List.map_filter expected_kind traces"
proof (induction traces)
  case Nil
  show ?case by (simp add: List.map_filter_simps)
next
  case (Cons t rest)
  then show ?case
    by (cases "expected_kind t") (simp_all add: List.map_filter_simps expected_traces_kind)
qed

lemma supported_type_kind: "supported_type t \<longleftrightarrow> expected_kind t \<noteq> None"
  by (auto simp add: expected_kind_def supported_type_def)

lemma length_expected_traces:
  "length (expected_traces t) = (if supported_type t then 1 else 0)"
proof -
  have "length (expected_traces t) = length (map trace_kind (expected_traces t))" by simp
  also have "\<dots> = (if supported_type t then 1 else 0)"
    by (cases "expected_kind t") (simp_all add: expected_traces_kind supported_type_kind)
  finally show ?thesis .
qed

lemma length_concat_expected:
  "length (concat (map expected_traces traces)) = length (filter supported_type traces)"
  by (induction traces) (simp_all add: length_expected_traces)



lemma perform_update_defaults: "perform_update [] DEFAULT_LAYOUT = DEFAULT_LAYOUT"
  by (simp add: DEFAULT_LAYOUT_def)


lemma plotly_from_metadata_well_formed:
  assumes "dict_get spec ''data'' (PList []) = PList traces"
    and "\<forall>t\<in>set traces. well_formed_trace t"
    and "dict_get spec ''layout'' (PDict []) = PDict kwargs"
    and "\<forall>r\<in>set (concat (map expected_traces traces)). accepts r"
    and "accepts_layout DEFAULT_LAYOUT"
    and "accepts_layout kwargs"
  shows "plotly_from_metadata accepts accepts_layout (PDict spec)
           = Inr \<lparr>fig_data = concat (map expected_traces traces),
                  fig_layout = perform_update DEFAULT_LAYOUT kwargs\<rparr>"
proof -
  have "add_traces accepts new_figure traces
          = Inr \<lparr>fig_data = concat (map expected_traces traces), fig_layout = []\<rparr>"
    using add_traces_well_formed [OF assms(2,4), of new_figure] by (simp add: new_figure_def)
  then show ?thesis
    using assms(1,3,5,6)
    by (simp add: plotly_from_metadata_def update_layout_def perform_update_defaults)
qed

text \<open>
  Claim C1. Take a plot specification whose \<^verbatim>\<open>data\<close> is absent or a list of traces, each a
  mapping, and whose \<^verbatim>\<open>layout\<close> is absent or a mapping, and let the charting library
  accept the traces that are built and the two layout updates. Then
  \<^verbatim>\<open>plotly_from_metadata\<close> raises nothing, and the traces of the figure are, in the order
  of \<^verbatim>\<open>data\<close>, what each trace contributes through the dispatch: one rendered trace made
  by the bar builder for type bar, by the line builder for type line and for type
  scatter alike, by the pie builder for type pie, and nothing for a trace with any other
  type or with none. A skipped trace never reaches the library, so nothing is asked of
  the library for it. The kinds of the rendered traces are the kinds of the supported
  traces in order, and there are as many rendered traces as supported ones.
\<close>

theorem trace_dispatch:
  assumes "dict_get spec ''data'' (PList []) = PList traces"
    and "\<forall>t\<in>set traces. well_formed_trace t"
    and "dict_get spec ''layout'' (PDict []) = PDict kwargs"
    and "\<forall>r\<in>set (concat (map expected_traces traces)). accepts r"
    and "accepts_layout DEFAULT_LAYOUT"
    and "accepts_layout kwargs"
  shows "\<exists>fig. plotly_from_metadata accepts accepts_layout (PDict spec) = Inr fig
           \<and> fig_data fig = concat (map expected_traces traces)
           \<and> map trace_kind (fig_data fig) = List.map_filter expected_kind traces
           \<and> length (fig_data fig) = length (filter supported_type traces)"
proof -
  let ?fig = "\<lparr>fig_data = concat (map expected_traces traces),
               fig_layout = perform_update DEFAULT_LAYOUT kwargs\<rparr>"
  have "plotly_from_metadata accepts accepts_layout (PDict spec) = Inr ?fig"
    by (rule plotly_from_metadata_well_formed [OF assms])
  moreover have "fig_data ?fig = concat (map expected_traces traces)"
    by simp
  moreover have "map trace_kind (fig_data ?fig) = List.map_filter expected_kind traces"
    by (simp add: concat_kinds)
  moreover have "length (fig_data ?fig) = length (filter supported_type traces)"
    by (simp add: length_concat_expected)
  ultimately show ?thesis by blast
qed

theorem trace_dispatch_witness:
  "\<exists>fig. plotly_from_metadata (\<lambda>r. True) (\<lambda>kwargs. True)
           (PDict [(''data'', PList
              [PDict [(''type'', PStr ''bar''), (''x'', PList [PInt 1, PInt 2]),
                      (''y'', PList [PInt 3, PInt 4]), (''name'', PStr ''A'')],
               PDict [(''type'', PStr ''unsupported'')],
               PDict [(''type'', PStr ''line'')],
               PDict [(''x'', PList [])],
               PDict [(''type'', PStr ''scatter'')],
               PDict [(''type'', PStr ''pie'')]])]) = Inr fig
     \<and> map trace_kind (fig_data fig) = [''bar'', ''scatter'', ''scatter'', ''pie'']
     \<and> length (fig_data fig) = 4
     \<and> hd (fig_data fig)
         = Bar [(''x'', PList [PInt 1, PInt 2]), (''y'', PList [PInt 3, PInt 4]),
                (''name'', PStr ''A''), (''marker'', PDict []), (''text'', PNone),
                (''textposition'', PStr ''auto'')]"
proof -
  let ?traces = "[PDict [(''type'', PStr ''bar''), (''x'', PList [PInt 1, PInt 2]),
                         (''y'', PList [PInt 3, PInt 4]), (''name'', PStr ''A'')],
                  PDict [(''type'', PStr ''unsupported'')],
                  PDict [(''type'', PStr ''line'')],
                  PDict [(''x'', PList [])],
                  PDict [(''type'', PStr ''scatter'')],
                  PDict [(''type'', PStr ''pie'')]]"
  let ?spec = "[(''data'', PList ?traces)]"
  have a: "dict_get ?spec ''data'' (PList []) = PList ?traces"
    by (simp add: dict_get_def)
  have b: "\<forall>t\<in>set ?traces. well_formed_trace t"
    by (simp add: well_formed_trace_def hashable_def trace_type_def dict_get_def)
  have c: "dict_get ?spec ''layout'' (PDict []) = PDict []"
    by (simp add: dict_get_def)
  have d: "\<forall>r\<in>set (concat (map expected_traces ?traces)). (\<lambda>r. True) r"
    by simp
  have k: "List.map_filter expected_kind ?traces = [''bar'', ''scatter'', ''scatter'', ''pie'']"
    by code_simp
  have n: "length (filter supported_type ?traces) = 4"
    by code_simp
  have h: "hd (concat (map expected_traces ?traces))
         = Bar [(''x'', PList [PInt 1, PInt 2]), (''y'', PList [PInt 3, PInt 4]),
                (''name'', PStr ''A''), (''marker'', PDict []), (''text'', PNone),
                (''textposition'', PStr ''auto'')]"
    by code_simp
  from trace_dispatch [of ?spec ?traces "[]" "\<lambda>r. True" "\<lambda>kwargs. True", OF a b c d]
  obtain fig where
    "plotly_from_metadata (\<lambda>r. True) (\<lambda>kwargs. True) (PDict ?spec) = Inr fig"
    "fig_data fig = concat (map expected_traces ?traces)"
    "map trace_kind (fig_data fig) = List.map_filter expected_kind ?traces"
    "length (fig_data fig) = length (filter supported_type ?traces)"
    by blast
  with k n h show ?thesis by (intro exI [of _ fig]) (simp only: simp_thms)
qed




end
